theory Spec2Isabelle
  imports Main "HOL-Library.AList"
begin

section \<open>Python values, dictionaries and exceptions\<close>

text \<open>
  The callbacks of \<^verbatim>\<open>pynsot/commands/callbacks.py\<close> work on untyped Python 2
  values. The values that reach them are \<^verbatim>\<open>None\<close>, booleans, integers, strings,
  lists and dictionaries. Dictionary keys are strings or \<^verbatim>\<open>None\<close> (the
  \<^verbatim>\<open>restkey\<close> of \<^verbatim>\<open>csv.DictReader\<close>).
\<close>

datatype pykey = KNone | KStr string

datatype pyval =
    PNone
  | PBool bool
  | PInt int
  | PStr string
  | PList "pyval list"
  | PDict "(pykey \<times> pyval) list"

text \<open>
  A dictionary is an association list, read through \<open>map_of\<close>; \<open>AList.update\<close> is
  \<^verbatim>\<open>d[k] = v\<close>, \<open>AList.delete\<close> removes a key. The order of the list stands for the
  iteration order of the dictionary, which Python 2 leaves unspecified; the theorems
  below speak about dictionaries through \<open>map_of\<close> only.
\<close>

type_synonym pydict = "(pykey \<times> pyval) list"

text \<open>
  Exceptions are values. \<^verbatim>\<open>click.UsageError\<close> and \<^verbatim>\<open>click.BadParameter\<close> carry
  their message; the others are the built-in exceptions that the callbacks let escape.
\<close>

datatype error =
    UsageError string
  | BadParameter string
  | KeyError
  | TypeError
  | AttributeError
  | ValueError

text \<open>\<^verbatim>\<open>d.pop(k)\<close>: the value and the dictionary without the key, or no result (KeyError).\<close>

definition dict_pop :: "pydict \<Rightarrow> pykey \<Rightarrow> (pyval \<times> pydict) option" where
  "dict_pop d k = (case map_of d k of None \<Rightarrow> None | Some v \<Rightarrow> Some (v, AList.delete k d))"

text \<open>\<^verbatim>\<open>d.update(e)\<close>: the entries of \<open>e\<close> are written into \<open>d\<close>.\<close>

definition dict_update :: "pydict \<Rightarrow> pydict \<Rightarrow> pydict" where
  "dict_update d e = AList.merge d e"

text \<open>
  Dictionaries are objects: two names can stand for the same one, and a change made
  through one name is seen through the other. Where that matters the objects live in a
  store, a map from addresses to dictionaries, and the code holds addresses.
\<close>

type_synonym ref = nat

type_synonym store = "ref \<Rightarrow> pydict"

definition no_objects :: store where
  "no_objects = (\<lambda>r. [])"

section \<open>Strings\<close>

text \<open>\<^verbatim>\<open>s.split(c)\<close> for a one-character separator: always at least one piece.\<close>

fun split_on :: "char \<Rightarrow> string \<Rightarrow> string list" where
  "split_on c [] = [[]]"
| "split_on c (x # xs) =
     (if x = c then [] # split_on c xs
      else (case split_on c xs of [] \<Rightarrow> [[x]] | y # ys \<Rightarrow> (x # y) # ys))"

text \<open>
  \<^verbatim>\<open>s.partition('=')\<close>: the text before the first \<open>=\<close>, the separator if it was
  found, and the text after it.
\<close>

definition partition_str :: "string \<Rightarrow> string \<times> string \<times> string" where
  "partition_str s =
     (takeWhile (\<lambda>c. c \<noteq> CHR ''='') s,
      (if CHR ''='' \<in> set s then ''='' else ''''),
      drop 1 (dropWhile (\<lambda>c. c \<noteq> CHR ''='') s))"

text \<open>Decimal digits of a natural number, for \<^verbatim>\<open>'%d'\<close> and \<^verbatim>\<open>str\<close>.\<close>

fun str_nat :: "nat \<Rightarrow> string" where
  "str_nat n =
     (if n < 10 then [''0123456789'' ! n]
      else str_nat (n div 10) @ [''0123456789'' ! (n mod 10)])"

declare str_nat.simps [simp del]

definition str_int :: "int \<Rightarrow> string" where
  "str_int i = (if i < 0 then CHR ''-'' # str_nat (nat (- i)) else str_nat (nat i))"

text \<open>\<^verbatim>\<open>s.title()\<close> on ASCII text: the first letter of every run of letters in upper
  case, the others in lower case.\<close>

definition islower :: "char \<Rightarrow> bool" where
  "islower c = (c \<in> set ''abcdefghijklmnopqrstuvwxyz'')"

definition isupper :: "char \<Rightarrow> bool" where
  "isupper c = (c \<in> set ''ABCDEFGHIJKLMNOPQRSTUVWXYZ'')"

definition toupper :: "char \<Rightarrow> char" where
  "toupper c =
     (case map_of (zip ''abcdefghijklmnopqrstuvwxyz'' ''ABCDEFGHIJKLMNOPQRSTUVWXYZ'') c of
        None \<Rightarrow> c | Some u \<Rightarrow> u)"

definition tolower :: "char \<Rightarrow> char" where
  "tolower c =
     (case map_of (zip ''ABCDEFGHIJKLMNOPQRSTUVWXYZ'' ''abcdefghijklmnopqrstuvwxyz'') c of
        None \<Rightarrow> c | Some l \<Rightarrow> l)"

fun title_from :: "bool \<Rightarrow> string \<Rightarrow> string" where
  "title_from previous_is_cased [] = []"
| "title_from previous_is_cased (c # cs) =
     (if islower c then (if previous_is_cased then c else toupper c) # title_from True cs
      else if isupper c then (if previous_is_cased then tolower c else c) # title_from True cs
      else c # title_from False cs)"

definition title :: "string \<Rightarrow> string" where
  "title s = title_from False s"

section \<open>transform\_attributes\<close>

text \<open>
  \<^verbatim>\<open>parent._attributes\<close> of the root context: absent until the first call creates it
  (\<open>None\<close>), then the list of (key, value) pairs appended so far. The callback uses
  \<^verbatim>\<open>ctx\<close> only to reach it and does not use \<^verbatim>\<open>param\<close>.
\<close>

type_synonym parse_log = "(string \<times> pyval) list option"

text \<open>
  The argument is made a list when it is a string; every element is split at the commas
  (line 74). Iterating \<^verbatim>\<open>None\<close>, a boolean or an integer raises TypeError; an element
  that is not a string has no \<^verbatim>\<open>split\<close> and raises AttributeError. Iterating a
  dictionary yields its keys.
\<close>

fun split_element :: "pyval \<Rightarrow> error + string list" where
  "split_element (PStr s) = Inr (split_on CHR '','' s)"
| "split_element v = Inl AttributeError"

fun split_elements :: "pyval list \<Rightarrow> error + string list list" where
  "split_elements [] = Inr []"
| "split_elements (v # vs) =
     (case split_element v of
        Inl e \<Rightarrow> Inl e
      | Inr ps \<Rightarrow> (case split_elements vs of Inl e \<Rightarrow> Inl e | Inr pss \<Rightarrow> Inr (ps # pss)))"

fun key_val :: "pykey \<Rightarrow> pyval" where
  "key_val KNone = PNone"
| "key_val (KStr s) = PStr s"

fun flatten_values :: "pyval \<Rightarrow> error + string list" where
  "flatten_values (PStr s) = Inr (split_on CHR '','' s)"
| "flatten_values (PList vs) =
     (case split_elements vs of Inl e \<Rightarrow> Inl e | Inr pss \<Rightarrow> Inr (concat pss))"
| "flatten_values (PDict d) =
     (case split_elements (map (key_val \<circ> fst) d) of Inl e \<Rightarrow> Inl e | Inr pss \<Rightarrow> Inr (concat pss))"
| "flatten_values v = Inl TypeError"

text \<open>
  The loop of lines 82 to 95 over the items, with the log and the dictionary built so
  far. The value is the third component of \<^verbatim>\<open>partition\<close>, a string; the cast of
  lines 89 and 90 is kept as written.
\<close>

definition cast_int :: "pyval \<Rightarrow> pyval" where
  "cast_int val =
     (case val of
        PInt i \<Rightarrow> PStr (str_int i)
      | PBool b \<Rightarrow> PStr (if b then ''True'' else ''False'')
      | _ \<Rightarrow> val)"

fun attr_loop ::
  "string list \<Rightarrow> (string \<times> pyval) list \<Rightarrow> pydict \<Rightarrow> (string \<times> pyval) list \<times> (error + pydict)"
where
  "attr_loop [] log attrs = (log, Inr attrs)"
| "attr_loop (attr # items) log attrs =
     (case partition_str attr of (key, _, v) \<Rightarrow>
        if key = [] then
          (log, Inl (UsageError (''Invalid attribute: '' @ attr @ ''; format should be key=value'')))
        else
          (let val = cast_int (PStr v)
           in attr_loop items (log @ [(key, val)]) (AList.update (KStr key) val attrs)))"

text \<open>
  \<^verbatim>\<open>items = set(chain.from_iterable(values))\<close> is iterated in an order that Python does
  not specify. The order is a parameter \<open>iter\<close>: it maps the tokens, in the order they
  were put into the set, to the order in which the loop meets them. Any \<open>iter\<close> that
  returns each distinct token once is a possible order; \<open>remdups\<close> is one.
\<close>

definition set_iteration :: "(string list \<Rightarrow> string list) \<Rightarrow> bool" where
  "set_iteration iter = (\<forall>xs. distinct (iter xs) \<and> set (iter xs) = set xs)"

definition transform_attributes ::
  "(string list \<Rightarrow> string list) \<Rightarrow> parse_log \<Rightarrow> pyval \<Rightarrow> parse_log \<times> (error + pydict)"
where
  "transform_attributes iter parent v =
     (case flatten_values v of
        Inl e \<Rightarrow> (parent, Inl e)
      | Inr toks \<Rightarrow>
          (case attr_loop (iter toks) (case parent of None \<Rightarrow> [] | Some l \<Rightarrow> l) []
           of (log, r) \<Rightarrow> (Some log, r)))"

text \<open>The key and the value that the loop stores for an accepted token.\<close>

definition attr_key :: "string \<Rightarrow> string" where
  "attr_key attr = fst (partition_str attr)"

definition attr_val :: "string \<Rightarrow> pyval" where
  "attr_val attr = cast_int (PStr (snd (snd (partition_str attr))))"

section \<open>process\_constraints\<close>

text \<open>
  The incoming data is an argument dictionary or a list of them, changed in place and
  returned: the data holds the addresses of the dictionaries in the store. The inner
  loop (lines 55 to 59) pops each constrained field from the object; a KeyError is caught
  and the field skipped.
\<close>

datatype data = Single ref | Many "ref list"

fun pop_constraints :: "string list \<Rightarrow> pydict \<Rightarrow> pydict \<Rightarrow> pydict \<times> pydict" where
  "pop_constraints [] obj constraints = (obj, constraints)"
| "pop_constraints (c_field # c_fields) obj constraints =
     (case dict_pop obj (KStr c_field) of
        None \<Rightarrow> pop_constraints c_fields obj constraints
      | Some (v, obj') \<Rightarrow> pop_constraints c_fields obj' (AList.update (KStr c_field) v constraints))"

text \<open>The body of the outer loop (lines 54 to 60) on the dictionary of one object.\<close>

definition constrain :: "string list \<Rightarrow> pydict \<Rightarrow> pydict" where
  "constrain constraint_fields obj =
     (case pop_constraints constraint_fields obj [] of
        (obj', constraints) \<Rightarrow> AList.update (KStr ''constraints'') (PDict constraints) obj')"

text \<open>The outer loop of line 53: each object of the list is changed in the store, in turn.\<close>

fun constrain_objects :: "string list \<Rightarrow> ref list \<Rightarrow> store \<Rightarrow> store" where
  "constrain_objects constraint_fields [] st = st"
| "constrain_objects constraint_fields (obj # objects) st =
     constrain_objects constraint_fields objects (st(obj := constrain constraint_fields (st obj)))"

text \<open>Line 51: a single dictionary is handled as a list of one.\<close>

fun objects_of :: "data \<Rightarrow> ref list" where
  "objects_of (Many objects) = objects"
| "objects_of (Single obj) = [obj]"

definition process_constraints :: "store \<Rightarrow> data \<Rightarrow> string list \<Rightarrow> store \<times> data" where
  "process_constraints st d constraint_fields =
     (constrain_objects constraint_fields (objects_of d) st, d)"

text \<open>
  What the extraction promises for one record: \<open>obj'\<close> has a \<open>constraints\<close> entry
  that maps exactly the constrained fields present in \<open>obj\<close> to their values there,
  and apart from that entry \<open>obj'\<close> is \<open>obj\<close> without the constrained fields.
\<close>

definition constraints_moved :: "string list \<Rightarrow> pydict \<Rightarrow> pydict \<Rightarrow> bool" where
  "constraints_moved constraint_fields obj obj' =
     ((\<exists>constraints.
         map_of obj' (KStr ''constraints'') = Some (PDict constraints)
         \<and> map_of constraints = map_of obj |` (KStr ` set constraint_fields))
      \<and> (\<forall>k. k \<noteq> KStr ''constraints'' \<longrightarrow>
             map_of obj' k = (if k \<in> KStr ` set constraint_fields then None else map_of obj k)))"

section \<open>process\_bulk\_add\<close>

text \<open>
  The file handle is the list of its lines, without the line ends. \<^verbatim>\<open>csv.reader\<close>
  with the delimiter \<open>:\<close> yields one row per line, the empty row for an empty line.
  The quoting of the csv dialect is not modelled: the lines hold no quote character.
\<close>

definition csv_reader :: "string list \<Rightarrow> string list list" where
  "csv_reader lines = map (\<lambda>l. if l = [] then [] else split_on CHR '':'' l) lines"

text \<open>
  \<^verbatim>\<open>csv.DictReader.next\<close>: the dictionary of a row. A row longer than the header puts
  the surplus, as a list, under the key \<^verbatim>\<open>None\<close>; a shorter row has its missing
  fields filled with \<^verbatim>\<open>None\<close>.
\<close>

definition make_row :: "string list \<Rightarrow> string list \<Rightarrow> pydict" where
  "make_row fieldnames row =
     (let d = fold (\<lambda>(k, v). AList.update (KStr k) (PStr v)) (zip fieldnames row) [];
          lf = length fieldnames;
          lr = length row
      in if lf < lr then AList.update KNone (PList (map PStr (drop lf row))) d
         else if lf > lr then fold (\<lambda>k. AList.update (KStr k) PNone) (drop lr fieldnames) d
         else d)"

text \<open>
  The rows after the header, each with the \<^verbatim>\<open>line_num\<close> that the reader shows
  when the row is handed out: the number of lines read so far (\<open>n\<close> before the row),
  since every access to \<^verbatim>\<open>fieldnames\<close> in \<^verbatim>\<open>next\<close> refreshes it. Empty rows are
  skipped.
\<close>

fun dict_rows :: "string list \<Rightarrow> nat \<Rightarrow> string list list \<Rightarrow> (nat \<times> pydict) list" where
  "dict_rows fieldnames n [] = []"
| "dict_rows fieldnames n (row # rows) =
     (if row = [] then dict_rows fieldnames (n + 1) rows
      else (n + 1, make_row fieldnames row) # dict_rows fieldnames (n + 1) rows)"

text \<open>
  The header is the first row, whatever it holds; a file with no line has no field names.
\<close>

definition DictReader :: "string list list \<Rightarrow> string list option \<times> (nat \<times> pydict) list" where
  "DictReader rows =
     (case rows of
        [] \<Rightarrow> (None, [])
      | header # rest \<Rightarrow> (Some header, dict_rows header 1 rest))"

definition NO_ATTRIBUTES :: "string list" where
  "NO_ATTRIBUTES = [''attributes'']"

text \<open>
  \<^verbatim>\<open>ast.literal_eval\<close> on a bare name. Only such strings reach it (their title case is
  \<open>True\<close> or \<open>False\<close>): the names \<open>True\<close>, \<open>False\<close> and \<open>None\<close> evaluate, any other
  name raises ValueError.
\<close>

definition literal_eval :: "string \<Rightarrow> error + pyval" where
  "literal_eval s =
     (if s = ''True'' then Inr (PBool True)
      else if s = ''False'' then Inr (PBool False)
      else if s = ''None'' then Inr PNone
      else Inl ValueError)"

text \<open>
  The loop of lines 151 to 161 over the items of the row, which it updates. The items
  come in the order of the list; Python leaves the order open, and it decides only which
  error is met first when a row has several bad fields.
\<close>

fun coerce_booleans :: "nat \<Rightarrow> (pykey \<times> pyval) list \<Rightarrow> pydict \<Rightarrow> error + pydict" where
  "coerce_booleans lineno [] r = Inr r"
| "coerce_booleans lineno ((k, PDict d) # kvs) r = coerce_booleans lineno kvs r"
| "coerce_booleans lineno ((k, PStr s) # kvs) r =
     (if title s = ''True'' \<or> title s = ''False'' then
        (case literal_eval s of
           Inl e \<Rightarrow> Inl e
         | Inr b \<Rightarrow> coerce_booleans lineno kvs (AList.update k b r))
      else coerce_booleans lineno kvs r)"
| "coerce_booleans lineno ((k, v) # kvs) r =
     Inl (BadParameter (''Error parsing file on line '' @ str_nat lineno))"

text \<open>The body of the loop over the reader (lines 135 to 162) for one row.\<close>

definition bulk_row ::
  "(string list \<Rightarrow> string list) \<Rightarrow> string \<Rightarrow> string list option \<Rightarrow> parse_log \<Rightarrow> nat \<times> pydict
     \<Rightarrow> parse_log \<times> (error + pydict)"
where
  "bulk_row iter parent_resource_name fieldnames parent lr =
     (case lr of (lineno, r) \<Rightarrow>
        (case fieldnames of
           None \<Rightarrow> (parent, Inl TypeError)
         | Some names \<Rightarrow>
             if length r \<noteq> length names then
               (parent, Inl (BadParameter (''File has wrong number of fields on line '' @ str_nat lineno)))
             else if parent_resource_name \<notin> set NO_ATTRIBUTES then
               (case map_of r (KStr ''attributes'') of
                  None \<Rightarrow> (parent, Inl KeyError)
                | Some a \<Rightarrow>
                    (case transform_attributes iter parent a of
                       (parent', Inl e) \<Rightarrow> (parent', Inl e)
                     | (parent', Inr attributes) \<Rightarrow>
                         (let r' = AList.update (KStr ''attributes'') (PDict attributes) r
                          in (parent', coerce_booleans lineno r' r'))))
             else (parent, coerce_booleans lineno r r)))"

fun bulk_loop ::
  "(string list \<Rightarrow> string list) \<Rightarrow> string \<Rightarrow> string list option \<Rightarrow> (nat \<times> pydict) list
     \<Rightarrow> parse_log \<Rightarrow> pydict list \<Rightarrow> parse_log \<times> (error + pydict list)"
where
  "bulk_loop iter prn fieldnames [] parent objects = (parent, Inr objects)"
| "bulk_loop iter prn fieldnames (lr # rows) parent objects =
     (case bulk_row iter prn fieldnames parent lr of
        (parent', Inl e) \<Rightarrow> (parent', Inl e)
      | (parent', Inr r) \<Rightarrow> bulk_loop iter prn fieldnames rows parent' (objects @ [r]))"

text \<open>
  The argument is \<^verbatim>\<open>None\<close> (no file given, returned as it is) or the open file. The
  result is the log of the root context and either the exception or the returned value.
\<close>

definition process_bulk_add ::
  "(string list \<Rightarrow> string list) \<Rightarrow> string \<Rightarrow> parse_log \<Rightarrow> string list option
     \<Rightarrow> parse_log \<times> (error + pydict list option)"
where
  "process_bulk_add iter parent_resource_name parent file =
     (case file of
        None \<Rightarrow> (parent, Inr None)
      | Some lines \<Rightarrow>
          (case DictReader (csv_reader lines) of (fieldnames, rows) \<Rightarrow>
             (case bulk_loop iter parent_resource_name fieldnames rows parent [] of
                (parent', Inl e) \<Rightarrow> (parent', Inl e)
              | (parent', Inr objects) \<Rightarrow> (parent', Inr (Some objects)))))"

section \<open>get\_resource\_by\_natural\_key\<close>

text \<open>\<^verbatim>\<open>obj[k]\<close>: KeyError on a dictionary without the key, TypeError on a value that
  is not a dictionary.\<close>

definition getitem :: "pyval \<Rightarrow> pykey \<Rightarrow> error + pyval" where
  "getitem obj k =
     (case obj of
        PDict d \<Rightarrow> (case map_of d k of None \<Rightarrow> Inl KeyError | Some v \<Rightarrow> Inr v)
      | _ \<Rightarrow> Inl TypeError)"

text \<open>
  \<^verbatim>\<open>ctx.obj.get_single_object\<close> is the lookup of the application object, a parameter
  here: it returns the object found or \<^verbatim>\<open>None\<close>.
\<close>

definition no_matching :: "string \<Rightarrow> string" where
  "no_matching resource_name =
     ''No matching '' @ resource_name @ '' found; try lookup using option \"-i\" / \"--id\".''"

definition get_resource_by_natural_key ::
  "(pydict \<Rightarrow> 'r \<Rightarrow> pyval) \<Rightarrow> pydict \<Rightarrow> string \<Rightarrow> 'r \<Rightarrow> error + pyval"
where
  "get_resource_by_natural_key get_single_object lookup_data resource_name resource =
     (let obj = get_single_object lookup_data resource
      in case (if obj \<noteq> PNone then getitem obj (KStr ''id'') else Inr PNone) of
           Inl e \<Rightarrow> Inl e
         | Inr resource_id \<Rightarrow>
             if resource_id = PNone then Inl (UsageError (no_matching resource_name))
             else Inr resource_id)"

section \<open>list\_subcommand\<close>

text \<open>
  \<^verbatim>\<open>ctx.params\<close> and \<^verbatim>\<open>ctx.parent.params\<close> are dictionary objects; \<^verbatim>\<open>data\<close>
  is a second name for the parent's. A context holds their addresses in the store.
  Lines 227 to 230: the update in place and the pop of \<open>id\<close>. The result is
  the store, and the parent identifier with the address of \<^verbatim>\<open>data\<close>, or the KeyError
  of the pop.
\<close>

record ctx =
  params :: ref
  parent_params :: ref

definition list_subcommand_data :: "store \<Rightarrow> ctx \<Rightarrow> store \<times> (error + pyval \<times> ref)" where
  "list_subcommand_data st c =
     (let data = parent_params c;
          st1 = st(data := dict_update (st data) (st (params c)))
      in case dict_pop (st1 data) (KStr ''id'') of
           None \<Rightarrow> (st1, Inl KeyError)
         | Some (parent_resource_id, d) \<Rightarrow> (st1(data := d), Inr (parent_resource_id, data)))"

section \<open>Facts about the attribute parser\<close>

lemma cast_int_PStr: "cast_int (PStr s) = PStr s"
  by (simp add: cast_int_def)

lemma attr_val_PStr: "attr_val t = PStr (snd (snd (partition_str t)))"
  by (simp add: attr_val_def cast_int_PStr)

lemma attr_loop_eq:
  "attr_loop items log attrs =
     (if \<forall>t\<in>set items. attr_key t \<noteq> []
      then (log @ map (\<lambda>t. (attr_key t, attr_val t)) items,
            Inr (fold (\<lambda>t. AList.update (KStr (attr_key t)) (attr_val t)) items attrs))
      else (log @ map (\<lambda>t. (attr_key t, attr_val t)) (takeWhile (\<lambda>t. attr_key t \<noteq> []) items),
            Inl (UsageError (''Invalid attribute: '' @ hd (dropWhile (\<lambda>t. attr_key t \<noteq> []) items)
                    @ ''; format should be key=value''))))"
  by (induction items arbitrary: log attrs)
     (auto simp: attr_key_def attr_val_def Let_def split: prod.splits)

lemma map_of_fold_update:
  "map_of (fold (\<lambda>t. AList.update (f t) (g t)) items attrs) =
     map_of attrs ++ map_of (rev (map (\<lambda>t. (f t, g t)) items))"
  by (induction items arbitrary: attrs)
     (auto simp: update_conv' map_add_def fun_eq_iff split: option.splits)

lemma keys_fold_update:
  "fst ` set (fold (\<lambda>t. AList.update (f t) (g t)) items attrs) = fst ` set attrs \<union> f ` set items"
  by (induction items arbitrary: attrs) (auto simp: dom_update)

lemma set_update_subset: "set (AList.update k v al) \<subseteq> insert (k, v) (set al)"
  by (induction al) auto

lemma split_elements_strings:
  "split_elements (map PStr ss) = Inr (map (split_on CHR '','') ss)"
  by (induction ss) auto

lemma flatten_values_strings:
  "flatten_values (PList (map PStr ss)) = Inr (concat (map (split_on CHR '','') ss))"
  by (simp add: split_elements_strings)

lemma distinct_singleton: "distinct xs \<Longrightarrow> set xs = {a} \<Longrightarrow> xs = [a]"
  by (cases xs) (auto simp: distinct_length_2_or_more dest: subset_singletonD)

lemma distinct_doubleton:
  assumes "distinct xs" "set xs = {a, b}" "a \<noteq> b"
  shows "xs = [a, b] \<or> xs = [b, a]"
proof -
  have "length xs = 2"
    using assms distinct_card [of xs] by simp
  then obtain p q where "xs = [p, q]"
    by (cases xs; cases "tl xs") auto
  with assms show ?thesis
    by (auto simp: doubleton_eq_iff)
qed

lemma transform_attributes_tokens:
  assumes "flatten_values v = Inr toks"
  shows "transform_attributes iter parent v =
     (let items = iter toks; old = (case parent of None \<Rightarrow> [] | Some l \<Rightarrow> l) in
      if \<forall>t\<in>set items. attr_key t \<noteq> []
      then (Some (old @ map (\<lambda>t. (attr_key t, attr_val t)) items),
            Inr (fold (\<lambda>t. AList.update (KStr (attr_key t)) (attr_val t)) items []))
      else (Some (old @ map (\<lambda>t. (attr_key t, attr_val t)) (takeWhile (\<lambda>t. attr_key t \<noteq> []) items)),
            Inl (UsageError (''Invalid attribute: '' @ hd (dropWhile (\<lambda>t. attr_key t \<noteq> []) items)
                    @ ''; format should be key=value''))))"
  using assms by (simp add: transform_attributes_def attr_loop_eq Let_def)

lemma transform_attributes_error:
  assumes "flatten_values v = Inl e"
  shows "transform_attributes iter parent v = (parent, Inl e)"
  using assms by (simp add: transform_attributes_def)

lemma set_iteration_remdups: "set_iteration remdups"
  by (simp add: set_iteration_def)

lemma split_element_error: "split_element v = Inl e \<Longrightarrow> e = AttributeError"
  by (cases v) auto

lemma split_elements_error: "split_elements vs = Inl e \<Longrightarrow> e = AttributeError"
  by (induction vs) (auto split: sum.splits dest: split_element_error)

lemma flatten_values_error:
  "flatten_values v = Inl e \<Longrightarrow> e = AttributeError \<or> e = TypeError"
  by (cases v) (auto split: sum.splits dest: split_elements_error)

section \<open>The attribute parser: claims\<close>

text \<open>The token \<open>novalue\<close> alone is accepted, with the empty string as its value.\<close>

theorem novalue_not_rejected:
  "transform_attributes remdups None (PList [PStr ''novalue'']) =
     (Some [(''novalue'', PStr '''')], Inr [(KStr ''novalue'', PStr '''')])"
  by (simp add: transform_attributes_def partition_str_def cast_int_def Let_def)

text \<open>
  Claim C4, amended. The parser rejects a token only when the text before its first
  \<open>=\<close> is empty (line 84). The token \<open>novalue\<close> has no \<open>=\<close>: \<^verbatim>\<open>partition\<close> makes the
  whole token the key and the empty string the value, so \<^verbatim>\<open>parse(["novalue"])\<close>
  succeeds, logs the pair and returns \<open>{novalue: ""}\<close>, whatever the iteration order of
  the set. A token with an empty left-hand side, such as \<open>=novalue\<close>, raises the
  UsageError whose message names the token and the format \<open>key=value\<close>; and every
  UsageError of the parser names such a token.
\<close>

theorem transform_attributes_novalue_accepted:
  assumes "set_iteration iter"
  shows "transform_attributes iter parent (PList [PStr ''novalue'']) =
           (Some ((case parent of None \<Rightarrow> [] | Some l \<Rightarrow> l) @ [(''novalue'', PStr '''')]),
            Inr [(KStr ''novalue'', PStr '''')])
       \<and> transform_attributes iter parent (PList [PStr ''=novalue'']) =
           (Some (case parent of None \<Rightarrow> [] | Some l \<Rightarrow> l),
            Inl (UsageError ''Invalid attribute: =novalue; format should be key=value''))
       \<and> (\<forall>v parent' msg. transform_attributes iter parent v = (parent', Inl (UsageError msg)) \<longrightarrow>
            (\<exists>toks t. flatten_values v = Inr toks \<and> t \<in> set toks \<and> attr_key t = [] \<and>
               msg = ''Invalid attribute: '' @ t @ ''; format should be key=value''))"
proof (intro conjI allI impI)
  have one: "iter [t] = [t]" for t
    using assms distinct_singleton [of "iter [t]" t] by (simp add: set_iteration_def)
  show "transform_attributes iter parent (PList [PStr ''novalue'']) =
           (Some ((case parent of None \<Rightarrow> [] | Some l \<Rightarrow> l) @ [(''novalue'', PStr '''')]),
            Inr [(KStr ''novalue'', PStr '''')])"
    by (simp add: transform_attributes_def one partition_str_def cast_int_def Let_def)
  show "transform_attributes iter parent (PList [PStr ''=novalue'']) =
           (Some (case parent of None \<Rightarrow> [] | Some l \<Rightarrow> l),
            Inl (UsageError ''Invalid attribute: =novalue; format should be key=value''))"
    by (simp add: transform_attributes_def one partition_str_def cast_int_def Let_def)
next
  fix v parent' msg
  assume fails: "transform_attributes iter parent v = (parent', Inl (UsageError msg))"
  show "\<exists>toks t. flatten_values v = Inr toks \<and> t \<in> set toks \<and> attr_key t = [] \<and>
               msg = ''Invalid attribute: '' @ t @ ''; format should be key=value''"
  proof (cases "flatten_values v")
    case (Inl e)
    with fails have "flatten_values v = Inl (UsageError msg)"
      by (simp add: transform_attributes_error)
    then show ?thesis
      using flatten_values_error [of v "UsageError msg"] by simp
  next
    case (Inr toks)
    let ?ok = "\<lambda>t. attr_key t \<noteq> []"
    from fails Inr have bad: "\<not> (\<forall>t\<in>set (iter toks). ?ok t)"
      and msg: "msg = ''Invalid attribute: '' @ hd (dropWhile ?ok (iter toks)) @ ''; format should be key=value''"
      by (auto simp: transform_attributes_tokens Let_def split: if_splits)
    from bad have ne: "dropWhile ?ok (iter toks) \<noteq> []"
      by simp
    then have "hd (dropWhile ?ok (iter toks)) \<in> set (iter toks)"
      by (metis hd_in_set set_dropWhileD)
    moreover have "\<not> ?ok (hd (dropWhile ?ok (iter toks)))"
      using ne by (rule hd_dropWhile)
    ultimately show ?thesis
      using Inr msg assms by (auto simp: set_iteration_def)
  qed
qed

theorem transform_attributes_novalue_accepted_witness:
  "set_iteration remdups
   \<and> transform_attributes remdups None (PList [PStr ''novalue'']) =
       (Some [(''novalue'', PStr '''')], Inr [(KStr ''novalue'', PStr '''')])
   \<and> transform_attributes remdups None (PList [PStr ''=novalue'']) =
       (Some [], Inl (UsageError ''Invalid attribute: =novalue; format should be key=value''))"
  using transform_attributes_novalue_accepted [OF set_iteration_remdups, of None]
  by (simp add: set_iteration_remdups)

text \<open>
  Claim C5. For a sequence of attribute strings, the items of the loop are the distinct
  comma-separated tokens of all elements. When the parser succeeds, it has appended the
  pair (text before the first \<open>=\<close>, text after it) of every item to the log, in the
  order it met them, and the returned dictionary holds each of these keys, with the
  value of the item met last for that key. In particular \<^verbatim>\<open>parse(["a=1,b=2"])\<close>
  returns \<open>{a: "1", b: "2"}\<close> and logs both pairs, whatever the iteration order.
\<close>

theorem transform_attributes_flatten_log_map:
  assumes "set_iteration iter"
  shows "(\<forall>ss parent parent' attrs.
           transform_attributes iter parent (PList (map PStr ss)) = (parent', Inr attrs) \<longrightarrow>
             (\<exists>items. distinct items
                \<and> set items = (\<Union>s\<in>set ss. set (split_on CHR '','' s))
                \<and> parent' = Some ((case parent of None \<Rightarrow> [] | Some l \<Rightarrow> l)
                              @ map (\<lambda>t. (attr_key t, attr_val t)) items)
                \<and> map_of attrs = map_of (rev (map (\<lambda>t. (KStr (attr_key t), attr_val t)) items))
                \<and> (\<forall>t\<in>set items. \<exists>t'\<in>set items.
                      attr_key t' = attr_key t \<and> map_of attrs (KStr (attr_key t)) = Some (attr_val t'))))
       \<and> (\<exists>log attrs.
             transform_attributes iter None (PList [PStr ''a=1,b=2'']) = (Some log, Inr attrs)
             \<and> set log = {(''a'', PStr ''1''), (''b'', PStr ''2'')}
             \<and> map_of attrs = [KStr ''a'' \<mapsto> PStr ''1'', KStr ''b'' \<mapsto> PStr ''2''])"
proof (intro conjI allI impI)
  fix ss parent parent' attrs
  assume ok: "transform_attributes iter parent (PList (map PStr ss)) = (parent', Inr attrs)"
  let ?toks = "concat (map (split_on CHR '','') ss)"
  let ?items = "iter ?toks"
  let ?pairs = "map (\<lambda>t. (KStr (attr_key t), attr_val t)) ?items"
  from ok have
    attrs: "attrs = fold (\<lambda>t. AList.update (KStr (attr_key t)) (attr_val t)) ?items []"
    and log: "parent' = Some ((case parent of None \<Rightarrow> [] | Some l \<Rightarrow> l)
                 @ map (\<lambda>t. (attr_key t, attr_val t)) ?items)"
    by (auto simp: transform_attributes_tokens [OF flatten_values_strings] Let_def split: if_splits)
  have it: "distinct ?items" "set ?items = (\<Union>s\<in>set ss. set (split_on CHR '','' s))"
    using assms by (simp_all add: set_iteration_def)
  have m: "map_of attrs = map_of (rev ?pairs)"
    unfolding attrs by (simp add: map_of_fold_update)
  have ins: "\<exists>t'\<in>set ?items. attr_key t' = attr_key t
                \<and> map_of attrs (KStr (attr_key t)) = Some (attr_val t')"
    if "t \<in> set ?items" for t
  proof -
    from that have "KStr (attr_key t) \<in> fst ` set (rev ?pairs)"
      by force
    then have "map_of (rev ?pairs) (KStr (attr_key t)) \<noteq> None"
      by (metis map_of_eq_None_iff)
    then obtain x where x: "map_of (rev ?pairs) (KStr (attr_key t)) = Some x"
      by blast
    then have "(KStr (attr_key t), x) \<in> set (rev ?pairs)"
      by (rule map_of_SomeD)
    then show ?thesis
      using x m by auto
  qed
  show "\<exists>items. distinct items
                \<and> set items = (\<Union>s\<in>set ss. set (split_on CHR '','' s))
                \<and> parent' = Some ((case parent of None \<Rightarrow> [] | Some l \<Rightarrow> l)
                              @ map (\<lambda>t. (attr_key t, attr_val t)) items)
                \<and> map_of attrs = map_of (rev (map (\<lambda>t. (KStr (attr_key t), attr_val t)) items))
                \<and> (\<forall>t\<in>set items. \<exists>t'\<in>set items.
                      attr_key t' = attr_key t \<and> map_of attrs (KStr (attr_key t)) = Some (attr_val t'))"
    using it log m ins by (intro exI [of _ ?items]) blast
next
  have "distinct (iter [''a=1'', ''b=2''])" "set (iter [''a=1'', ''b=2'']) = {''a=1'', ''b=2''}"
    using assms by (simp_all add: set_iteration_def)
  then have "iter [''a=1'', ''b=2''] = [''a=1'', ''b=2''] \<or> iter [''a=1'', ''b=2''] = [''b=2'', ''a=1'']"
    by (intro distinct_doubleton) simp_all
  then show "\<exists>log attrs.
             transform_attributes iter None (PList [PStr ''a=1,b=2'']) = (Some log, Inr attrs)
             \<and> set log = {(''a'', PStr ''1''), (''b'', PStr ''2'')}
             \<and> map_of attrs = [KStr ''a'' \<mapsto> PStr ''1'', KStr ''b'' \<mapsto> PStr ''2'']"
    by (auto simp: transform_attributes_def partition_str_def cast_int_def Let_def fun_eq_iff)
qed

theorem transform_attributes_flatten_log_map_witness:
  "set_iteration remdups
   \<and> transform_attributes remdups (Some [(''z'', PStr ''0'')]) (PList (map PStr [''a=1,b=2'', ''b=2,a=3''])) =
        (Some [(''z'', PStr ''0''), (''a'', PStr ''1''), (''b'', PStr ''2''), (''a'', PStr ''3'')],
         Inr [(KStr ''a'', PStr ''3''), (KStr ''b'', PStr ''2'')])
   \<and> (\<exists>log attrs.
         transform_attributes remdups None (PList [PStr ''a=1,b=2'']) = (Some log, Inr attrs)
         \<and> set log = {(''a'', PStr ''1''), (''b'', PStr ''2'')}
         \<and> map_of attrs = [KStr ''a'' \<mapsto> PStr ''1'', KStr ''b'' \<mapsto> PStr ''2''])"
  using transform_attributes_flatten_log_map [OF set_iteration_remdups]
  by (simp add: set_iteration_remdups transform_attributes_def partition_str_def cast_int_def Let_def)

lemma split_elements_int:
  "PInt i \<in> set vs \<Longrightarrow> split_elements vs = Inl AttributeError"
proof (induction vs)
  case Nil
  then show ?case by simp
next
  case (Cons v vs)
  show ?case
  proof (cases "split_element v")
    case (Inl e)
    then show ?thesis
      using split_element_error [of v e] by simp
  next
    case (Inr ps)
    then have "v \<noteq> PInt i"
      by auto
    with Cons.prems have "PInt i \<in> set vs"
      by simp
    from Cons.IH [OF this] Inr show ?thesis
      by simp
  qed
qed

lemma set_fold_update:
  "set (fold (\<lambda>t. AList.update (f t) (g t)) items attrs)
     \<subseteq> set attrs \<union> (\<lambda>t. (f t, g t)) ` set items"
proof (induction items arbitrary: attrs)
  case Nil
  show ?case by simp
next
  case (Cons t items)
  from Cons [of "AList.update (f t) (g t) attrs"] set_update_subset [of "f t" "g t" attrs]
  show ?case by auto
qed

text \<open>
  Claim C9, evaluated on the code. The cast of lines 89 and 90 comes too late: every
  element is split at the commas first (line 74), and an integer has no
  \<^verbatim>\<open>split\<close>. So \<^verbatim>\<open>parse([5])\<close>, and every list that holds an integer, raises
  AttributeError and leaves the log as it was; nothing is stored, and no string
  \<open>5\<close> is. Whatever the outcome, each pair that reaches the log, and each entry of a
  returned dictionary, has as its value the text after the first \<open>=\<close> of a token: the
  cast never meets an integer.
\<close>

theorem integer_element_raises_attribute_error:
  "transform_attributes iter parent (PList [PInt 5]) = (parent, Inl AttributeError)
   \<and> (\<forall>i vs. PInt i \<in> set vs \<longrightarrow>
          transform_attributes iter parent (PList vs) = (parent, Inl AttributeError))
   \<and> (\<forall>v parent' res. transform_attributes iter parent v = (parent', res) \<longrightarrow>
          parent' = parent
          \<or> (\<exists>items. parent' = Some ((case parent of None \<Rightarrow> [] | Some l \<Rightarrow> l)
                 @ map (\<lambda>t. (attr_key t, PStr (snd (snd (partition_str t))))) items)))
   \<and> (\<forall>v parent' attrs. transform_attributes iter parent v = (parent', Inr attrs) \<longrightarrow>
          (\<forall>kv\<in>set attrs. \<exists>t. kv = (KStr (attr_key t), PStr (snd (snd (partition_str t))))))"
proof (intro conjI allI impI)
  show "transform_attributes iter parent (PList [PInt 5]) = (parent, Inl AttributeError)"
    by (simp add: transform_attributes_def)
next
  fix i vs
  assume "PInt i \<in> set vs"
  then show "transform_attributes iter parent (PList vs) = (parent, Inl AttributeError)"
    by (simp add: transform_attributes_def split_elements_int)
next
  fix v parent' res
  assume run: "transform_attributes iter parent v = (parent', res)"
  show "parent' = parent
          \<or> (\<exists>items. parent' = Some ((case parent of None \<Rightarrow> [] | Some l \<Rightarrow> l)
                 @ map (\<lambda>t. (attr_key t, PStr (snd (snd (partition_str t))))) items))"
  proof (cases "flatten_values v")
    case (Inl e)
    with run show ?thesis
      by (simp add: transform_attributes_error)
  next
    case (Inr toks)
    with run have "parent' = Some ((case parent of None \<Rightarrow> [] | Some l \<Rightarrow> l)
                 @ map (\<lambda>t. (attr_key t, attr_val t)) (iter toks))
       \<or> parent' = Some ((case parent of None \<Rightarrow> [] | Some l \<Rightarrow> l)
                 @ map (\<lambda>t. (attr_key t, attr_val t)) (takeWhile (\<lambda>t. attr_key t \<noteq> []) (iter toks)))"
      by (auto simp: transform_attributes_tokens Let_def split: if_splits)
    then show ?thesis
      unfolding attr_val_PStr by blast
  qed
next
  fix v parent' attrs
  assume ok: "transform_attributes iter parent v = (parent', Inr attrs)"
  then obtain toks where toks: "flatten_values v = Inr toks"
    by (cases "flatten_values v") (auto simp: transform_attributes_error)
  from ok toks have
    "attrs = fold (\<lambda>t. AList.update (KStr (attr_key t)) (attr_val t)) (iter toks) []"
    by (auto simp: transform_attributes_tokens Let_def split: if_splits)
  then have "set attrs \<subseteq> (\<lambda>t. (KStr (attr_key t), attr_val t)) ` set (iter toks)"
    using set_fold_update [of "\<lambda>t. KStr (attr_key t)" attr_val "iter toks" "[]"] by simp
  then show "\<forall>kv\<in>set attrs. \<exists>t. kv = (KStr (attr_key t), PStr (snd (snd (partition_str t))))"
    unfolding attr_val_PStr by blast
qed

theorem integer_element_raises_attribute_error_witness:
  "PInt 5 \<in> set [PStr ''a=1'', PInt 5]
   \<and> transform_attributes remdups (Some [(''z'', PStr ''0'')]) (PList [PStr ''a=1'', PInt 5])
        = (Some [(''z'', PStr ''0'')], Inl AttributeError)
   \<and> transform_attributes remdups None (PList [PInt 5]) = (None, Inl AttributeError)
   \<and> transform_attributes remdups None (PList [PStr ''a=5'']) =
        (Some [(''a'', PStr ''5'')], Inr [(KStr ''a'', PStr ''5'')])
   \<and> attr_key ''a=5'' = ''a'' \<and> snd (snd (partition_str ''a=5'')) = ''5''"
  using integer_element_raises_attribute_error [of remdups "Some [(''z'', PStr ''0'')]"]
    integer_element_raises_attribute_error [of remdups None]
  by (simp add: transform_attributes_def partition_str_def cast_int_def Let_def attr_key_def)

text \<open>
  Claim C10. Whenever the parser succeeds, every key of the returned dictionary is a
  non-empty string. It raises its UsageError exactly when the argument can be flattened
  into tokens and one of them has an empty text before its first \<open>=\<close>; on a sequence
  of strings it succeeds exactly when no token has.
\<close>

theorem transform_attributes_keys_nonempty:
  assumes "set_iteration iter"
  shows "(\<forall>parent' attrs. transform_attributes iter parent v = (parent', Inr attrs) \<longrightarrow>
            (\<forall>k\<in>fst ` set attrs. \<exists>s. k = KStr s \<and> s \<noteq> []))
       \<and> ((\<exists>parent' msg. transform_attributes iter parent v = (parent', Inl (UsageError msg))) \<longleftrightarrow>
            (\<exists>toks. flatten_values v = Inr toks \<and> (\<exists>t\<in>set toks. attr_key t = [])))
       \<and> (\<forall>ss. (\<exists>parent' attrs. transform_attributes iter parent (PList (map PStr ss)) = (parent', Inr attrs)) \<longleftrightarrow>
            (\<forall>s\<in>set ss. \<forall>t\<in>set (split_on CHR '','' s). attr_key t \<noteq> []))"
proof (intro conjI allI impI)
  fix parent' attrs
  assume ok: "transform_attributes iter parent v = (parent', Inr attrs)"
  then obtain toks where toks: "flatten_values v = Inr toks"
    by (cases "flatten_values v") (auto simp: transform_attributes_error)
  from ok toks have good: "\<forall>t\<in>set (iter toks). attr_key t \<noteq> []"
    and attrs: "attrs = fold (\<lambda>t. AList.update (KStr (attr_key t)) (attr_val t)) (iter toks) []"
    by (auto simp: transform_attributes_tokens Let_def split: if_splits)
  show "\<forall>k\<in>fst ` set attrs. \<exists>s. k = KStr s \<and> s \<noteq> []"
    using good unfolding attrs keys_fold_update by auto
next
  show "(\<exists>parent' msg. transform_attributes iter parent v = (parent', Inl (UsageError msg))) \<longleftrightarrow>
            (\<exists>toks. flatten_values v = Inr toks \<and> (\<exists>t\<in>set toks. attr_key t = []))"
  proof (cases "flatten_values v")
    case (Inl e)
    then show ?thesis
      using flatten_values_error [of v e] by (auto simp: transform_attributes_error)
  next
    case (Inr toks)
    have "set (iter toks) = set toks"
      using assms by (simp add: set_iteration_def)
    then show ?thesis
      using Inr by (auto simp: transform_attributes_tokens Let_def)
  qed
next
  fix ss
  have "set (iter (concat (map (split_on CHR '','') ss))) = set (concat (map (split_on CHR '','') ss))"
    using assms by (simp add: set_iteration_def)
  then show "(\<exists>parent' attrs. transform_attributes iter parent (PList (map PStr ss)) = (parent', Inr attrs)) \<longleftrightarrow>
            (\<forall>s\<in>set ss. \<forall>t\<in>set (split_on CHR '','' s). attr_key t \<noteq> [])"
    by (auto simp: transform_attributes_tokens [OF flatten_values_strings] Let_def)
qed

theorem transform_attributes_keys_nonempty_witness:
  "set_iteration remdups
   \<and> transform_attributes remdups None (PList (map PStr [''a=1,b=2''])) =
        (Some [(''a'', PStr ''1''), (''b'', PStr ''2'')], Inr [(KStr ''a'', PStr ''1''), (KStr ''b'', PStr ''2'')])
   \<and> attr_key ''a=1'' = ''a'' \<and> attr_key ''b=2'' = ''b''
   \<and> flatten_values (PStr ''a=1,=2'') = Inr [''a=1'', ''=2''] \<and> attr_key ''=2'' = []
   \<and> (\<exists>parent' msg. transform_attributes remdups None (PStr ''a=1,=2'') = (parent', Inl (UsageError msg)))"
  using transform_attributes_keys_nonempty [OF set_iteration_remdups, of None "PStr ''a=1,=2''"]
  by (simp add: set_iteration_remdups transform_attributes_def partition_str_def cast_int_def
        Let_def attr_key_def)

section \<open>The constraint extractor\<close>

lemma pop_constraints_maps:
  "pop_constraints fs obj cons = (obj', cons') \<Longrightarrow>
     map_of obj' = map_of obj |` (- KStr ` set fs)
     \<and> map_of cons' = map_of cons ++ (map_of obj |` (KStr ` set fs))"
proof (induction fs arbitrary: obj cons)
  case Nil
  then show ?case by simp
next
  case (Cons f fs)
  show ?case
  proof (cases "map_of obj (KStr f)")
    case None
    with Cons.prems have "pop_constraints fs obj cons = (obj', cons')"
      by (simp add: dict_pop_def)
    from Cons.IH [OF this] None show ?thesis
      by (auto simp: fun_eq_iff restrict_map_def map_add_def split: option.splits)
  next
    case (Some v)
    with Cons.prems have
      "pop_constraints fs (AList.delete (KStr f) obj) (AList.update (KStr f) v cons) = (obj', cons')"
      by (simp add: dict_pop_def)
    from Cons.IH [OF this] Some show ?thesis
      by (auto simp: fun_eq_iff restrict_map_def map_add_def delete_conv' update_conv'
            split: option.splits)
  qed
qed

lemma constrain_moves: "constraints_moved cf obj (constrain cf obj)"
proof -
  obtain obj' cons where p: "pop_constraints cf obj [] = (obj', cons)"
    by (cases "pop_constraints cf obj []")
  from pop_constraints_maps [OF p] show ?thesis
    by (auto simp: constraints_moved_def constrain_def p update_conv' restrict_map_def)
qed

lemma constrain_has_constraints:
  "\<exists>c. map_of (constrain cf obj) (KStr ''constraints'') = Some (PDict c)"
  by (auto simp: constrain_def update_conv' split: prod.splits)

lemma constrain_objects_append:
  "constrain_objects cf (xs @ ys) st = constrain_objects cf ys (constrain_objects cf xs st)"
  by (induction xs arbitrary: st) simp_all

lemma constrain_objects_other:
  "r \<notin> set objects \<Longrightarrow> constrain_objects cf objects st r = st r"
  by (induction objects arbitrary: st) auto

lemma constrain_objects_has_constraints:
  "r \<in> set objects \<Longrightarrow>
     \<exists>c. map_of (constrain_objects cf objects st r) (KStr ''constraints'') = Some (PDict c)"
proof (induction objects arbitrary: st rule: rev_induct)
  case Nil
  then show ?case by simp
next
  case (snoc x xs)
  show ?case
  proof (cases "r = x")
    case True
    then show ?thesis
      using constrain_has_constraints by (simp add: constrain_objects_append)
  next
    case False
    with snoc.prems have "r \<in> set xs" by simp
    from snoc.IH [OF this] False show ?thesis
      by (simp add: constrain_objects_append)
  qed
qed

lemma constrain_objects_distinct:
  "distinct objects \<Longrightarrow> r \<in> set objects \<Longrightarrow>
     constrain_objects cf objects st r = constrain cf (st r)"
proof (induction objects arbitrary: st)
  case Nil
  then show ?case by simp
next
  case (Cons x xs)
  show ?case
  proof (cases "r = x")
    case True
    with Cons.prems have "r \<notin> set xs" by simp
    then show ?thesis
      using True by (simp add: constrain_objects_other)
  next
    case False
    with Cons.prems have "r \<in> set xs" "distinct xs" by simp_all
    from Cons.IH [OF this(2) this(1)] False show ?thesis
      by simp
  qed
qed

text \<open>
  A list that holds the same dictionary twice: the second pass finds the field \<open>a\<close>
  already moved and replaces the map of constraints by an empty one, so the value of
  \<open>a\<close> is lost.
\<close>

theorem aliased_record_loses_field:
  "fst (process_constraints (no_objects(0 := [(KStr ''a'', PInt 1)])) (Many [0, 0]) [''a'']) 0
     = [(KStr ''constraints'', PDict [])]"
  by (simp add: process_constraints_def constrain_def dict_pop_def)

text \<open>
  Claim C7, amended. The extraction changes the dictionaries in place and returns the
  data it was given, a single record as a single record and a list as the same list.
  Afterwards every record has a \<open>constraints\<close> entry that holds a map. When the
  records are different objects (a single record always is), that entry maps each
  constrained field present in the record to its former value, these fields are gone
  from the top level, absent ones are skipped, so the map may be empty, and every other
  field is untouched. No other object changes. A record that occurs more than once in
  the list is processed once per occurrence, and the promise about the former values
  does not hold for it.
\<close>

theorem process_constraints_moves_fields:
  "snd (process_constraints st d constraint_fields) = d
   \<and> (\<forall>r\<in>set (objects_of d). \<exists>c.
         map_of (fst (process_constraints st d constraint_fields) r) (KStr ''constraints'')
           = Some (PDict c))
   \<and> (distinct (objects_of d) \<longrightarrow>
        (\<forall>r\<in>set (objects_of d).
           constraints_moved constraint_fields (st r)
             (fst (process_constraints st d constraint_fields) r)))
   \<and> (\<forall>r. r \<notin> set (objects_of d) \<longrightarrow> fst (process_constraints st d constraint_fields) r = st r)"
  by (simp add: process_constraints_def constrain_objects_has_constraints
        constrain_objects_distinct constrain_objects_other constrain_moves)

theorem process_constraints_moves_fields_witness:
  "distinct (objects_of (Many [0, 1]))
   \<and> fst (process_constraints
            (no_objects(0 := [(KStr ''a'', PInt 1)], 1 := [(KStr ''b'', PInt 2)]))
            (Many [0, 1]) [''a'']) 0
       = [(KStr ''constraints'', PDict [(KStr ''a'', PInt 1)])]
   \<and> fst (process_constraints
            (no_objects(0 := [(KStr ''a'', PInt 1)], 1 := [(KStr ''b'', PInt 2)]))
            (Many [0, 1]) [''a'']) 1
       = [(KStr ''b'', PInt 2), (KStr ''constraints'', PDict [])]
   \<and> constraints_moved [''a''] [(KStr ''a'', PInt 1)]
        [(KStr ''constraints'', PDict [(KStr ''a'', PInt 1)])]
   \<and> constraints_moved [''a''] [(KStr ''b'', PInt 2)]
        [(KStr ''b'', PInt 2), (KStr ''constraints'', PDict [])]
   \<and> fst (process_constraints
            (no_objects(0 := [(KStr ''name'', PStr ''x''), (KStr ''site'', PInt 1)]))
            (Single 0) [''site'']) 0
       = [(KStr ''name'', PStr ''x''), (KStr ''constraints'', PDict [(KStr ''site'', PInt 1)])]
   \<and> snd (process_constraints
            (no_objects(0 := [(KStr ''name'', PStr ''x''), (KStr ''site'', PInt 1)]))
            (Single 0) [''site'']) = Single 0"
  using process_constraints_moves_fields
     [of "no_objects(0 := [(KStr ''a'', PInt 1)], 1 := [(KStr ''b'', PInt 2)])"
         "Many [0, 1]" "[''a'']"]
  by (simp add: process_constraints_def constrain_def dict_pop_def)

section \<open>The natural-key resolver\<close>

text \<open>
  Claim C6. The resolution raises a UsageError exactly when the lookup returns no
  object or an object whose \<open>id\<close> is \<^verbatim>\<open>None\<close>; the message is the same in both
  cases and names the resource type. When the lookup returns an object with an
  identifier, the identifier is returned.
\<close>

theorem get_resource_by_natural_key_cases:
  "((\<exists>msg. get_resource_by_natural_key get_single_object lookup_data resource_name resource
              = Inl (UsageError msg))
      \<longleftrightarrow> (get_single_object lookup_data resource = PNone
           \<or> (\<exists>obj. get_single_object lookup_data resource = PDict obj
                    \<and> map_of obj (KStr ''id'') = Some PNone)))
   \<and> (\<forall>msg. get_resource_by_natural_key get_single_object lookup_data resource_name resource
              = Inl (UsageError msg)
          \<longrightarrow> msg = no_matching resource_name
              \<and> (\<exists>rest. msg = ''No matching '' @ resource_name @ '' found; '' @ rest))
   \<and> (\<forall>obj ident. get_single_object lookup_data resource = PDict obj
          \<and> map_of obj (KStr ''id'') = Some ident \<and> ident \<noteq> PNone
          \<longrightarrow> get_resource_by_natural_key get_single_object lookup_data resource_name resource
              = Inr ident)"
  by (cases "get_single_object lookup_data resource")
     (auto simp: get_resource_by_natural_key_def getitem_def no_matching_def Let_def
        split: option.splits)

theorem get_resource_by_natural_key_cases_witness:
  "get_resource_by_natural_key (\<lambda>d r. PNone) [(KStr ''cidr'', PStr ''10.0.0.0/8'')] ''networks'' ()
     = Inl (UsageError (no_matching ''networks''))
   \<and> get_resource_by_natural_key (\<lambda>d r. PDict [(KStr ''id'', PNone)]) [] ''networks'' ()
     = Inl (UsageError (no_matching ''networks''))
   \<and> get_resource_by_natural_key (\<lambda>d r. PDict [(KStr ''id'', PInt 5), (KStr ''cidr'', PStr ''10.0.0.0/8'')])
        [(KStr ''cidr'', PStr ''10.0.0.0/8'')] ''networks'' ()
     = Inr (PInt 5)"
  using get_resource_by_natural_key_cases
     [of "\<lambda>d r. PDict [(KStr ''id'', PInt 5), (KStr ''cidr'', PStr ''10.0.0.0/8'')]"
         "[(KStr ''cidr'', PStr ''10.0.0.0/8'')]" "''networks''" "()"]
  by (simp add: get_resource_by_natural_key_def getitem_def)


section \<open>The nested-resource dispatcher\<close>

text \<open>
  With the parent parameters \<open>{id: None, cidr: "10.0.0.0/8"}\<close> at address 0 and the
  own parameters \<open>{limit: 10}\<close> at address 1, the parent's dictionary is changed.
\<close>

theorem parent_params_mutated:
  "fst (list_subcommand_data
          (no_objects(0 := [(KStr ''id'', PNone), (KStr ''cidr'', PStr ''10.0.0.0/8'')],
                      1 := [(KStr ''limit'', PInt 10)]))
          \<lparr>params = 1, parent_params = 0\<rparr>) 0
     = [(KStr ''cidr'', PStr ''10.0.0.0/8''), (KStr ''limit'', PInt 10)]"
  by (simp add: list_subcommand_data_def dict_update_def dict_pop_def AList.merge_def Let_def)

text \<open>
  Claim C8, amended. The working map is not a copy: \<^verbatim>\<open>data\<close> is the parent
  context's parameter dictionary itself, updated in place. After lines 227 to 230 the
  parent's dictionary holds its own entries overlaid with those of \<^verbatim>\<open>ctx.params\<close>
  (which win on a shared key), without the key \<open>id\<close>, whose value is the parent
  identifier extracted; when no \<open>id\<close> is there the pop raises KeyError and the in-place
  update stays. No other object of the store changes.
\<close>

theorem list_subcommand_data_in_place:
  "(\<forall>st' parent_resource_id data.
      list_subcommand_data st c = (st', Inr (parent_resource_id, data)) \<longrightarrow>
        data = parent_params c
        \<and> (map_of (st (parent_params c)) ++ map_of (st (params c))) (KStr ''id'') = Some parent_resource_id
        \<and> map_of (st' (parent_params c)) =
            (map_of (st (parent_params c)) ++ map_of (st (params c)))(KStr ''id'' := None)
        \<and> (\<forall>r. r \<noteq> parent_params c \<longrightarrow> st' r = st r))
   \<and> (\<forall>st' e.
      list_subcommand_data st c = (st', Inl e) \<longrightarrow>
        e = KeyError
        \<and> (map_of (st (parent_params c)) ++ map_of (st (params c))) (KStr ''id'') = None
        \<and> map_of (st' (parent_params c)) = map_of (st (parent_params c)) ++ map_of (st (params c))
        \<and> (\<forall>r. r \<noteq> parent_params c \<longrightarrow> st' r = st r))"
  by (auto simp: list_subcommand_data_def dict_update_def dict_pop_def Let_def merge_conv'
        delete_conv' split: option.splits)

theorem list_subcommand_data_in_place_witness:
  "list_subcommand_data
      (no_objects(0 := [(KStr ''id'', PNone), (KStr ''cidr'', PStr ''10.0.0.0/8'')],
                  1 := [(KStr ''limit'', PInt 10)]))
      \<lparr>params = 1, parent_params = 0\<rparr>
     = (no_objects(0 := [(KStr ''cidr'', PStr ''10.0.0.0/8''), (KStr ''limit'', PInt 10)],
                   1 := [(KStr ''limit'', PInt 10)]),
        Inr (PNone, 0))
   \<and> ([KStr ''id'' \<mapsto> PNone, KStr ''cidr'' \<mapsto> PStr ''10.0.0.0/8''] ++ [KStr ''limit'' \<mapsto> PInt 10])
        (KStr ''id'') = Some PNone"
  using list_subcommand_data_in_place
     [of "no_objects(0 := [(KStr ''id'', PNone), (KStr ''cidr'', PStr ''10.0.0.0/8'')],
                      1 := [(KStr ''limit'', PInt 10)])"
         "\<lparr>params = 1, parent_params = 0\<rparr>"]
  by (simp add: list_subcommand_data_def dict_update_def dict_pop_def AList.merge_def Let_def
        fun_eq_iff)

section \<open>The bulk loader\<close>

lemma snd_transform_attributes:
  "snd (transform_attributes iter parent v) = snd (transform_attributes iter None v)"
  by (cases "flatten_values v")
     (simp_all add: transform_attributes_error transform_attributes_tokens Let_def)

lemma snd_case_result:
  "snd (case x of (p, Inl e) \<Rightarrow> (p, Inl e) | (p, Inr a) \<Rightarrow> (p, f a))
     = (case snd x of Inl e \<Rightarrow> Inl e | Inr a \<Rightarrow> f a)"
  by (cases x) (auto split: sum.splits)

lemma snd_bulk_row:
  "snd (bulk_row iter prn fieldnames parent lr) = snd (bulk_row iter prn fieldnames None lr)"
  by (auto simp: bulk_row_def Let_def snd_case_result snd_transform_attributes [of iter parent]
        split: prod.splits option.splits)

lemma bulk_loop_Inr:
  "bulk_loop iter prn fieldnames rows parent objects = (parent', Inr res) \<Longrightarrow>
     \<exists>new. res = objects @ new
       \<and> list_all2 (\<lambda>lr r. snd (bulk_row iter prn fieldnames None lr) = Inr r) rows new"
proof (induction rows arbitrary: parent objects)
  case Nil
  then show ?case by simp
next
  case (Cons lr rows)
  from Cons.prems obtain p r where
    row: "bulk_row iter prn fieldnames parent lr = (p, Inr r)"
    and rest: "bulk_loop iter prn fieldnames rows p (objects @ [r]) = (parent', Inr res)"
    by (auto split: prod.splits sum.splits)
  from row have "snd (bulk_row iter prn fieldnames None lr) = Inr r"
    using snd_bulk_row [of iter prn fieldnames parent lr] by simp
  with Cons.IH [OF rest] show ?case
    by auto
qed

lemma bulk_loop_Inl:
  "bulk_loop iter prn fieldnames rows parent objects = (parent', Inl e) \<Longrightarrow>
     \<exists>pre lr post. rows = pre @ lr # post
       \<and> (\<forall>x\<in>set pre. \<exists>r. snd (bulk_row iter prn fieldnames None x) = Inr r)
       \<and> snd (bulk_row iter prn fieldnames None lr) = Inl e"
proof (induction rows arbitrary: parent objects)
  case Nil
  then show ?case by simp
next
  case (Cons lr rows)
  obtain p res where row: "bulk_row iter prn fieldnames parent lr = (p, res)"
    by (cases "bulk_row iter prn fieldnames parent lr")
  then have none: "snd (bulk_row iter prn fieldnames None lr) = res"
    using snd_bulk_row [of iter prn fieldnames parent lr] by simp
  show ?case
  proof (cases res)
    case (Inl e')
    with Cons.prems row have "e' = e" by simp
    with none Inl have "lr # rows = [] @ lr # rows
        \<and> (\<forall>x\<in>set []. \<exists>r. snd (bulk_row iter prn fieldnames None x) = Inr r)
        \<and> snd (bulk_row iter prn fieldnames None lr) = Inl e"
      by simp
    then show ?thesis by blast
  next
    case (Inr r)
    with Cons.prems row have
      "bulk_loop iter prn fieldnames rows p (objects @ [r]) = (parent', Inl e)"
      by simp
    from Cons.IH [OF this] obtain pre x post where
      "rows = pre @ x # post"
      "\<forall>y\<in>set pre. \<exists>r. snd (bulk_row iter prn fieldnames None y) = Inr r"
      "snd (bulk_row iter prn fieldnames None x) = Inl e"
      by blast
    with none Inr have "lr # rows = (lr # pre) @ x # post
        \<and> (\<forall>y\<in>set (lr # pre). \<exists>r. snd (bulk_row iter prn fieldnames None y) = Inr r)
        \<and> snd (bulk_row iter prn fieldnames None x) = Inl e"
      by simp
    then show ?thesis by blast
  qed
qed

lemma keys_fold_update_fresh:
  "distinct (map fst al @ map f xs) \<Longrightarrow>
     map fst (fold (\<lambda>x. AList.update (f x) (g x)) xs al) = map fst al @ map f xs"
proof (induction xs arbitrary: al)
  case Nil
  then show ?case by simp
next
  case (Cons x xs)
  from Cons.prems have fresh: "f x \<notin> set (map fst al)"
    by auto
  then have keys: "map fst (AList.update (f x) (g x) al) = map fst al @ [f x]"
    by (simp add: update_keys)
  with Cons.prems have "distinct (map fst (AList.update (f x) (g x) al) @ map f xs)"
    by auto
  from Cons.IH [OF this] keys show ?case
    by simp
qed

lemma keys_make_row_short:
  assumes "distinct fieldnames" "length row \<le> length fieldnames"
  shows "map fst (make_row fieldnames row) = map KStr fieldnames"
proof -
  let ?d = "fold (\<lambda>(k, v). AList.update (KStr k) (PStr v)) (zip fieldnames row) []"
  have zipkeys: "map (\<lambda>p. KStr (fst p)) (zip fieldnames row) = map KStr (take (length row) fieldnames)"
  proof -
    have "map (\<lambda>p. KStr (fst p)) (zip fieldnames row) = map KStr (map fst (zip fieldnames row))"
      by simp
    also have "\<dots> = map KStr (take (length row) fieldnames)"
      using assms(2) by (simp only: map_fst_zip_take min.absorb2)
    finally show ?thesis .
  qed
  have dk: "distinct (map KStr fieldnames)"
    using assms(1) by (simp add: distinct_map inj_on_def)
  have "distinct (map KStr (take (length row) fieldnames))"
    using assms(1) by (simp add: distinct_map inj_on_def)
  then have d: "map fst ?d = map KStr (take (length row) fieldnames)"
    using keys_fold_update_fresh [of "[]" "\<lambda>p. KStr (fst p)" "zip fieldnames row" "\<lambda>p. PStr (snd p)"]
    by (simp add: zipkeys case_prod_unfold)
  have "distinct (map fst ?d @ map KStr (drop (length row) fieldnames))"
    using dk by (simp add: d flip: map_append)
  from keys_fold_update_fresh [OF this, of "\<lambda>k. PNone"]
  have "map fst (fold (\<lambda>k. AList.update (KStr k) PNone) (drop (length row) fieldnames) ?d)
          = map KStr fieldnames"
    by (simp add: d flip: map_append)
  then show ?thesis
    using assms(2) d by (auto simp: make_row_def Let_def)
qed

lemma short_row_passes_field_check:
  assumes "distinct fieldnames" "length row \<le> length fieldnames"
  shows "length (make_row fieldnames row) = length fieldnames"
  using keys_make_row_short [OF assms] by (metis length_map)

lemmas bulk_defs =
  process_bulk_add_def DictReader_def csv_reader_def make_row_def bulk_row_def NO_ATTRIBUTES_def
  transform_attributes_def partition_str_def cast_int_def literal_eval_def Let_def
  title_def islower_def isupper_def toupper_def tolower_def

text \<open>
  Claim C2. A bulk load on an open file has one of two outcomes. Either it returns a
  list that has, in order, exactly one record for every row the reader hands out, each
  the successful transformation of its row; or it raises the error of the first row
  whose transformation fails, and returns nothing: the records of the rows before it
  are dropped.
\<close>

theorem process_bulk_add_all_or_nothing:
  assumes "DictReader (csv_reader lines) = (fieldnames, rows)"
  shows "(\<exists>objects. snd (process_bulk_add iter prn parent (Some lines)) = Inr (Some objects)
            \<and> list_all2 (\<lambda>lr r. snd (bulk_row iter prn fieldnames None lr) = Inr r) rows objects)
       \<or> (\<exists>e pre lr post. snd (process_bulk_add iter prn parent (Some lines)) = Inl e
            \<and> rows = pre @ lr # post
            \<and> (\<forall>x\<in>set pre. \<exists>r. snd (bulk_row iter prn fieldnames None x) = Inr r)
            \<and> snd (bulk_row iter prn fieldnames None lr) = Inl e)"
proof -
  obtain p res where loop: "bulk_loop iter prn fieldnames rows parent [] = (p, res)"
    by (cases "bulk_loop iter prn fieldnames rows parent []")
  show ?thesis
  proof (cases res)
    case (Inl e)
    with loop assms have "snd (process_bulk_add iter prn parent (Some lines)) = Inl e"
      by (simp add: process_bulk_add_def)
    moreover from bulk_loop_Inl [of iter prn fieldnames rows parent "[]" p e] loop Inl
    obtain pre lr post where "rows = pre @ lr # post"
      "\<forall>x\<in>set pre. \<exists>r. snd (bulk_row iter prn fieldnames None x) = Inr r"
      "snd (bulk_row iter prn fieldnames None lr) = Inl e"
      by blast
    ultimately show ?thesis by blast
  next
    case (Inr objects)
    with loop assms have "snd (process_bulk_add iter prn parent (Some lines)) = Inr (Some objects)"
      by (simp add: process_bulk_add_def)
    moreover from bulk_loop_Inr [of iter prn fieldnames rows parent "[]" p objects] loop Inr
    have "list_all2 (\<lambda>lr r. snd (bulk_row iter prn fieldnames None lr) = Inr r) rows objects"
      by simp
    ultimately show ?thesis by blast
  qed
qed


theorem process_bulk_add_all_or_nothing_witness:
  "DictReader (csv_reader [''name:cidr:attributes'', ''foo:10.0.0.0/8:owner=netops'', ''bar:False:x=1''])
     = (Some [''name'', ''cidr'', ''attributes''],
        [(2, [(KStr ''name'', PStr ''foo''), (KStr ''cidr'', PStr ''10.0.0.0/8''),
              (KStr ''attributes'', PStr ''owner=netops'')]),
         (3, [(KStr ''name'', PStr ''bar''), (KStr ''cidr'', PStr ''False''),
              (KStr ''attributes'', PStr ''x=1'')])])
   \<and> snd (process_bulk_add remdups ''networks'' None
            (Some [''name:cidr:attributes'', ''foo:10.0.0.0/8:owner=netops'', ''bar:False:x=1'']))
     = Inr (Some
         [[(KStr ''name'', PStr ''foo''), (KStr ''cidr'', PStr ''10.0.0.0/8''),
           (KStr ''attributes'', PDict [(KStr ''owner'', PStr ''netops'')])],
          [(KStr ''name'', PStr ''bar''), (KStr ''cidr'', PBool False),
           (KStr ''attributes'', PDict [(KStr ''x'', PStr ''1'')])]])
   \<and> snd (process_bulk_add remdups ''networks'' None
            (Some [''name:cidr:attributes'', ''foo:10.0.0.0/8:owner=netops'', ''bar:False:x=1:y'']))
     = Inl (BadParameter ''File has wrong number of fields on line 3'')"
  using process_bulk_add_all_or_nothing
     [of "[''name:cidr:attributes'', ''foo:10.0.0.0/8:owner=netops'', ''bar:False:x=1'']"
         "Some [''name'', ''cidr'', ''attributes'']"
         "[(2, [(KStr ''name'', PStr ''foo''), (KStr ''cidr'', PStr ''10.0.0.0/8''),
              (KStr ''attributes'', PStr ''owner=netops'')]),
           (3, [(KStr ''name'', PStr ''bar''), (KStr ''cidr'', PStr ''False''),
              (KStr ''attributes'', PStr ''x=1'')])]"
         remdups "''networks''" None]
  by (simp add: bulk_defs str_nat.simps)

text \<open>
  Claim C1, evaluated on the code. With the header \<open>name:cidr:attributes\<close>, a second
  line that has only two fields does not raise the field-count error:
  \<^verbatim>\<open>csv.DictReader\<close> fills the missing \<open>attributes\<close> field with \<^verbatim>\<open>None\<close>, the
  dictionary has as many entries as the header (\<open>short_row_passes_field_check\<close>), and
  the load ends in the TypeError of iterating \<^verbatim>\<open>None\<close> in the attribute parser, with
  no line number. For the resource type without attributes the same file is refused by
  the check for values that are not strings, with its own message. A second line with
  too many fields does raise the BadParameter about the number of fields on line 2.
\<close>

theorem short_row_raises_type_error:
  "process_bulk_add iter ''networks'' parent (Some [''name:cidr:attributes'', ''foo:10.0.0.0/8''])
     = (parent, Inl TypeError)
   \<and> process_bulk_add iter ''attributes'' parent (Some [''name:cidr:attributes'', ''foo:10.0.0.0/8''])
     = (parent, Inl (BadParameter ''Error parsing file on line 2''))
   \<and> process_bulk_add iter ''networks'' parent
        (Some [''name:cidr:attributes'', ''foo:10.0.0.0/8:owner=netops:extra''])
     = (parent, Inl (BadParameter ''File has wrong number of fields on line 2''))"
  by (simp add: bulk_defs str_nat.simps)

text \<open>
  Claim C3, evaluated on the code. A field whose value is exactly \<open>True\<close> becomes the
  boolean. A field whose value is \<open>TRUE\<close> passes the title-case test of line 160, but
  \<^verbatim>\<open>ast.literal_eval\<close> is given the original string, which names no literal: the load
  ends in a ValueError and the field is not coerced.
\<close>

theorem uppercase_true_raises_value_error:
  "process_bulk_add iter ''attributes'' parent (Some [''name:required'', ''owner:True''])
     = (parent, Inr (Some [[(KStr ''name'', PStr ''owner''), (KStr ''required'', PBool True)]]))
   \<and> process_bulk_add iter ''attributes'' parent (Some [''name:required'', ''owner:TRUE''])
     = (parent, Inl ValueError)"
  by (simp add: bulk_defs)

end
